theory Spec2Isabelle
  imports Main "HOL-Library.Word"
begin

section \<open>Data model of api/client/client.go\<close>

text \<open>
  The Go types of the client are embedded as follows. Pointers that may be nil are
  options. Collaborators outside the package (the network reached through a
  ContextDialer, the gRPC transport, the health-check service) are an explicit world
  value that logs every call, and an environment of outcomes that decides what each
  call returns. A time.Duration is its number of nanoseconds.
\<close>

type_synonym int32 = "32 word"
type_synonym Duration = int
type_synonym tls_Config = string
type_synonym ssh_ClientConfig = string

text \<open>
  Errors. \<open>Err\<close> is an error of a collaborator, \<open>DeadlineExceeded\<close> is
  context.DeadlineExceeded, \<open>ConnectionProblem\<close> is trace.ConnectionProblem(err, msg),
  \<open>Aggregate\<close> is what trace.NewAggregate builds from at least one error and
  \<open>Wrapped\<close> is trace.Wrap(err, msg) with a message.
\<close>

datatype error =
    Err string
  | DeadlineExceeded
  | ConnectionProblem "error option" string
  | Aggregate "error list"
  | Wrapped error string

text \<open>trace.Wrap(err) without a message only attaches the stack trace.\<close>

definition trace_Wrap :: "error \<Rightarrow> error" where
  "trace_Wrap e = e"

text \<open>trace.NewAggregate drops nil errors and returns nil when none is left.\<close>

definition trace_NewAggregate :: "error option list \<Rightarrow> error option" where
  "trace_NewAggregate errs =
     (let nonNils = List.map_filter (\<lambda>e. e) errs
      in if length nonNils = 0 then None else Some (Aggregate nonNils))"


text \<open>
  The three standard dialers: a dialer supplied by the caller (named), the keep-alive
  dialer of NewDialer(keepAlivePeriod, dialTimeout) and the SSH tunnel dialer of
  NewTunnelDialer(ssh, keepAlivePeriod, dialTimeout).
\<close>

datatype ContextDialer =
    CustomDialer string
  | NewDialer Duration Duration
  | NewTunnelDialer ssh_ClientConfig Duration Duration

record Credentials =
  TLSConfig :: "error + tls_Config"
  SSHConfig :: "error + ssh_ClientConfig option"
  CredsDialer :: "error + ContextDialer"

record Config =
  Addrs :: "string list"
  Dialer :: "ContextDialer option"
  DialTimeout :: Duration
  KeepAlivePeriod :: Duration
  KeepAliveCount :: int
  Credentials :: "Credentials list"
  WithoutDialBlock :: bool

text \<open>
  A grpc.ClientConn is identified by the order in which it was created; it remembers the
  dialer and the target it was created with. The service handle of
  proto.NewAuthServiceClient wraps the connection it was made from.
\<close>

record ClientConn =
  connId :: nat
  connDialer :: ContextDialer
  connTarget :: string

datatype AuthServiceClient = NewAuthServiceClient ClientConn

record PingResponse =
  PublicTunnelAddr :: string

text \<open>The Client struct; field \<open>c\<close> of the source is \<open>conf\<close> here.\<close>

record Client =
  conf :: Config
  tlsConfig :: "tls_Config option"
  sshConfig :: "ssh_ClientConfig option"
  dialer :: "ContextDialer option"
  grpc :: "AuthServiceClient option"
  conn :: "ClientConn option"
  atomicFlag :: int32

definition unsetFlag :: int32 where "unsetFlag = 0"
definition openFlag :: int32 where "openFlag = 1"
definition closedFlag :: int32 where "closedFlag = 2"

text \<open>
  The world: every DialContext(ctx, network, addr) call that reached an underlying
  dialer, every connection created, every health check issued and every connection
  closed, each in order.
\<close>

record World =
  dialLog :: "(ContextDialer \<times> string \<times> string) list"
  opened :: "ClientConn list"
  pingLog :: "ClientConn list"
  released :: "ClientConn list"

text \<open>
  The environment decides the outcome of the n-th dial, of the n-th health check and of
  closing a connection, so that any behaviour of the network is covered.
\<close>

record Env =
  dialOutcome :: "nat \<Rightarrow> ContextDialer \<Rightarrow> string \<Rightarrow> error option"
  pingOutcome :: "nat \<Rightarrow> ClientConn \<Rightarrow> error + PingResponse"
  closeOutcome :: "ClientConn \<Rightarrow> error option"

section \<open>The lifecycle flag\<close>

definition atomic_LoadInt32 :: "int32 \<Rightarrow> int32" where
  "atomic_LoadInt32 v = v"

text \<open>atomic.CompareAndSwapInt32 returns whether it swapped, and the value stored after it.\<close>

definition atomic_CompareAndSwapInt32 :: "int32 \<Rightarrow> int32 \<Rightarrow> int32 \<Rightarrow> bool \<times> int32" where
  "atomic_CompareAndSwapInt32 v old new = (if v = old then (True, new) else (False, v))"

definition isClosed :: "Client \<Rightarrow> bool" where
  "isClosed cl = (atomic_LoadInt32 (atomicFlag cl) = closedFlag)"

definition setOpen :: "Client \<Rightarrow> bool \<times> Client" where
  "setOpen cl =
     (case atomic_CompareAndSwapInt32 (atomicFlag cl) unsetFlag openFlag of
        (swapped, v) \<Rightarrow> (swapped, cl\<lparr>atomicFlag := v\<rparr>))"

definition setClosed :: "Client \<Rightarrow> bool \<times> Client" where
  "setClosed cl =
     (case atomic_CompareAndSwapInt32 (atomicFlag cl) openFlag closedFlag of
        (swapped, v) \<Rightarrow> (swapped, cl\<lparr>atomicFlag := v\<rparr>))"

text \<open>
  The operations on the flag are atomic, so concurrent callers are some sequence of them.
  \<open>flagTrace\<close> lists the value of the flag before and after each operation of such a
  sequence, and \<open>transitions\<close> keeps the steps that changed it.
\<close>

datatype flagOp = OpSetOpen | OpSetClosed | OpIsClosed

fun applyOp :: "flagOp \<Rightarrow> Client \<Rightarrow> Client" where
  "applyOp OpSetOpen cl = snd (setOpen cl)"
| "applyOp OpSetClosed cl = snd (setClosed cl)"
| "applyOp OpIsClosed cl = (if isClosed cl then cl else cl)"

fun flagTrace :: "Client \<Rightarrow> flagOp list \<Rightarrow> int32 list" where
  "flagTrace cl [] = [atomicFlag cl]"
| "flagTrace cl (x # xs) = atomicFlag cl # flagTrace (applyOp x cl) xs"

definition transitions :: "int32 list \<Rightarrow> (int32 \<times> int32) list" where
  "transitions tr = filter (\<lambda>(a, b). a \<noteq> b) (zip tr (tl tr))"

section \<open>Dialing through the wrapped dialer\<close>




section \<open>Close\<close>

text \<open>conn.Close() of a grpc.ClientConn: the release is logged, the environment gives its error.\<close>

definition conn_Close :: "Env \<Rightarrow> ClientConn \<Rightarrow> World \<Rightarrow> error option \<times> World" where
  "conn_Close env k w = (closeOutcome env k, w\<lparr>released := released w @ [k]\<rparr>)"

text \<open>
  Close, run without interruption. Calling Close on a nil *grpc.ClientConn dereferences
  nil, which is the result \<open>Panics\<close>. trace.Wrap(nil) is nil.
\<close>

datatype closeResult = Returns "error option" | Panics

definition Close :: "Env \<Rightarrow> Client \<Rightarrow> World \<Rightarrow> closeResult \<times> Client \<times> World" where
  "Close env cl w =
     (case setClosed cl of
        (True, cl1) \<Rightarrow>
          (case conn cl1 of
             None \<Rightarrow> (Panics, cl1, w)
           | Some k \<Rightarrow>
               (case conn_Close env k w of
                  (err, w1) \<Rightarrow> (Returns (map_option trace_Wrap err), cl1\<lparr>conn := None\<rparr>, w1)))
      | (False, cl1) \<Rightarrow> (Returns None, cl1, w))"

text \<open>
  Concurrent callers of Close on one client. A caller is at the compare-and-set
  (\<open>CloseStart\<close>), at c.conn.Close() having won it (\<open>CloseRelease\<close>), at c.conn = nil
  holding the error of the release (\<open>CloseClear\<close>), or has returned; \<open>CloseDone\<close>
  records whether the caller had won the compare-and-set and what it returned. A schedule
  names the caller that takes the next step.
\<close>

datatype closePc =
    CloseStart
  | CloseRelease
  | CloseClear "error option"
  | CloseDone bool closeResult

record CloseState =
  client :: Client
  world :: World
  callers :: "closePc list"

definition closeStep :: "Env \<Rightarrow> nat \<Rightarrow> CloseState \<Rightarrow> CloseState" where
  "closeStep env i s =
     (if i < length (callers s) then
        (case callers s ! i of
           CloseStart \<Rightarrow>
             (case setClosed (client s) of
                (True, cl1) \<Rightarrow> s\<lparr>client := cl1, callers := (callers s)[i := CloseRelease]\<rparr>
              | (False, cl1) \<Rightarrow>
                  s\<lparr>client := cl1, callers := (callers s)[i := CloseDone False (Returns None)]\<rparr>)
         | CloseRelease \<Rightarrow>
             (case conn (client s) of
                None \<Rightarrow> s\<lparr>callers := (callers s)[i := CloseDone True Panics]\<rparr>
              | Some k \<Rightarrow>
                  (case conn_Close env k (world s) of
                     (err, w1) \<Rightarrow> s\<lparr>world := w1, callers := (callers s)[i := CloseClear err]\<rparr>))
         | CloseClear err \<Rightarrow>
             s\<lparr>client := (client s)\<lparr>conn := None\<rparr>,
               callers := (callers s)[i := CloseDone True (Returns (map_option trace_Wrap err))]\<rparr>
         | CloseDone won r \<Rightarrow> s)
      else s)"

definition closeRun :: "Env \<Rightarrow> nat list \<Rightarrow> CloseState \<Rightarrow> CloseState" where
  "closeRun env sched s = foldl (\<lambda>s i. closeStep env i s) s sched"




section \<open>Invariant of concurrent Close\<close>



section \<open>A new client, and values to run the model on\<close>

text \<open>The client that New builds before connecting: \<open>&Client{c: cfg}\<close>, every other field zero.\<close>

definition newClient :: "Config \<Rightarrow> Client" where
  "newClient cfg =
     \<lparr>conf = cfg, tlsConfig = None, sshConfig = None, dialer = None, grpc = None, conn = None,
      atomicFlag = 0\<rparr>"


text \<open>Values used to run the model on concrete inputs.\<close>

definition emptyWorld :: World where
  "emptyWorld = \<lparr>dialLog = [], opened = [], pingLog = [], released = []\<rparr>"

definition quietEnv :: Env where
  "quietEnv =
     \<lparr>dialOutcome = (\<lambda>n d a. None),
      pingOutcome = (\<lambda>n k. Inr \<lparr>PublicTunnelAddr = []\<rparr>),
      closeOutcome = (\<lambda>k. None)\<rparr>"

definition plainConfig :: Config where
  "plainConfig =
     \<lparr>Addrs = [''auth.example.com:3025''], Dialer = None, DialTimeout = 30000000000,
      KeepAlivePeriod = 60000000000, KeepAliveCount = 3, Credentials = [],
      WithoutDialBlock = False\<rparr>"



section \<open>Properties of the lifecycle flag\<close>

lemma flag_consts_distinct:
  "unsetFlag \<noteq> openFlag" "openFlag \<noteq> closedFlag" "unsetFlag \<noteq> closedFlag"
  by (simp_all add: unsetFlag_def openFlag_def closedFlag_def)

lemma transitions_Cons:
  "transitions (a # flagTrace cl xs) =
     (if a \<noteq> atomicFlag cl then [(a, atomicFlag cl)] else []) @ transitions (flagTrace cl xs)"
  by (cases xs) (simp_all add: transitions_def)

lemma atomicFlag_applyOp:
  "atomicFlag (applyOp x cl) =
     (case x of
        OpSetOpen \<Rightarrow> if atomicFlag cl = unsetFlag then openFlag else atomicFlag cl
      | OpSetClosed \<Rightarrow> if atomicFlag cl = openFlag then closedFlag else atomicFlag cl
      | OpIsClosed \<Rightarrow> atomicFlag cl)"
  by (cases x) (simp_all add: setOpen_def setClosed_def atomic_CompareAndSwapInt32_def)

lemma transitions_other:
  "atomicFlag cl \<noteq> unsetFlag \<Longrightarrow> atomicFlag cl \<noteq> openFlag \<Longrightarrow>
   transitions (flagTrace cl xs) = []"
proof (induction xs arbitrary: cl)
  case Nil
  then show ?case by (simp add: transitions_def)
next
  case (Cons x xs)
  have same: "atomicFlag (applyOp x cl) = atomicFlag cl"
    using Cons.prems by (simp add: atomicFlag_applyOp split: flagOp.splits)
  show ?case
    using Cons.IH [of "applyOp x cl"] Cons.prems same
    by (simp add: transitions_Cons)
qed

lemma transitions_open:
  "atomicFlag cl = openFlag \<Longrightarrow>
   transitions (flagTrace cl xs) \<in> {[], [(openFlag, closedFlag)]}"
proof (induction xs arbitrary: cl)
  case Nil
  then show ?case by (simp add: transitions_def)
next
  case (Cons x xs)
  show ?case
  proof (cases "x = OpSetClosed")
    case True
    then have nxt: "atomicFlag (applyOp x cl) = closedFlag"
      using Cons.prems by (simp add: atomicFlag_applyOp del: applyOp.simps)
    then have "transitions (flagTrace (applyOp x cl) xs) = []"
      using flag_consts_distinct by (intro transitions_other) auto
    then show ?thesis
      using nxt Cons.prems flag_consts_distinct by (simp add: transitions_Cons)
  next
    case False
    then have same: "atomicFlag (applyOp x cl) = openFlag"
      using Cons.prems flag_consts_distinct
      by (cases x) (simp_all add: atomicFlag_applyOp del: applyOp.simps)
    show ?thesis
      using Cons.IH [OF same] same Cons.prems by (simp add: transitions_Cons)
  qed
qed

lemma transitions_unset:
  "atomicFlag cl = unsetFlag \<Longrightarrow>
   transitions (flagTrace cl xs) \<in>
     {[], [(unsetFlag, openFlag)], [(unsetFlag, openFlag), (openFlag, closedFlag)]}"
proof (induction xs arbitrary: cl)
  case Nil
  then show ?case by (simp add: transitions_def)
next
  case (Cons x xs)
  show ?case
  proof (cases "x = OpSetOpen")
    case True
    then have nxt: "atomicFlag (applyOp x cl) = openFlag"
      using Cons.prems by (simp add: atomicFlag_applyOp del: applyOp.simps)
    from transitions_open [OF nxt, of xs] show ?thesis
      using nxt Cons.prems flag_consts_distinct by (auto simp add: transitions_Cons)
  next
    case False
    then have same: "atomicFlag (applyOp x cl) = unsetFlag"
      using Cons.prems flag_consts_distinct
      by (cases x) (simp_all add: atomicFlag_applyOp del: applyOp.simps)
    show ?thesis
      using Cons.IH [OF same] same Cons.prems by (simp add: transitions_Cons)
  qed
qed

text \<open>
  C3. The lifecycle flag is monotonic. Whatever value the flag starts from and whatever
  sequence of setOpen, setClosed and isClosed is applied to it, the only changes of the
  flag are Unset to Open and Open to Closed, no change happens twice, and each is the
  effect of the compare-and-set of setOpen or setClosed.
\<close>

theorem lifecycle_flag_monotonic:
  "set (transitions (flagTrace cl xs)) \<subseteq> {(unsetFlag, openFlag), (openFlag, closedFlag)}
   \<and> distinct (transitions (flagTrace cl xs))
   \<and> setOpen cl = (atomicFlag cl = unsetFlag,
        cl\<lparr>atomicFlag := snd (atomic_CompareAndSwapInt32 (atomicFlag cl) unsetFlag openFlag)\<rparr>)
   \<and> setClosed cl = (atomicFlag cl = openFlag,
        cl\<lparr>atomicFlag := snd (atomic_CompareAndSwapInt32 (atomicFlag cl) openFlag closedFlag)\<rparr>)"
proof -
  consider (u) "atomicFlag cl = unsetFlag" | (o) "atomicFlag cl = openFlag"
    | (x) "atomicFlag cl \<noteq> unsetFlag" "atomicFlag cl \<noteq> openFlag"
    by blast
  then have tr: "transitions (flagTrace cl xs) \<in>
     {[], [(unsetFlag, openFlag)], [(openFlag, closedFlag)],
      [(unsetFlag, openFlag), (openFlag, closedFlag)]}"
  proof cases
    case u
    from transitions_unset [OF u, of xs] show ?thesis by auto
  next
    case o
    from transitions_open [OF o, of xs] show ?thesis by auto
  next
    case x
    from transitions_other [OF x, of xs] show ?thesis by simp
  qed
  have cas: "setOpen cl = (atomicFlag cl = unsetFlag,
        cl\<lparr>atomicFlag := snd (atomic_CompareAndSwapInt32 (atomicFlag cl) unsetFlag openFlag)\<rparr>)"
    "setClosed cl = (atomicFlag cl = openFlag,
        cl\<lparr>atomicFlag := snd (atomic_CompareAndSwapInt32 (atomicFlag cl) openFlag closedFlag)\<rparr>)"
    by (simp_all add: setOpen_def setClosed_def atomic_CompareAndSwapInt32_def)
  from tr flag_consts_distinct cas show ?thesis by auto
qed

theorem lifecycle_flag_monotonic_witness:
  "transitions (flagTrace
      \<lparr>conf = \<lparr>Addrs = [], Dialer = None, DialTimeout = 0, KeepAlivePeriod = 0,
               KeepAliveCount = 0, Credentials = [], WithoutDialBlock = False\<rparr>,
       tlsConfig = None, sshConfig = None, dialer = None, grpc = None, conn = None,
       atomicFlag = unsetFlag\<rparr>
      [OpSetClosed, OpSetOpen, OpIsClosed, OpSetOpen, OpSetClosed, OpSetClosed, OpSetOpen])
     = [(unsetFlag, openFlag), (openFlag, closedFlag)]
   \<and> distinct (transitions (flagTrace
      \<lparr>conf = \<lparr>Addrs = [], Dialer = None, DialTimeout = 0, KeepAlivePeriod = 0,
               KeepAliveCount = 0, Credentials = [], WithoutDialBlock = False\<rparr>,
       tlsConfig = None, sshConfig = None, dialer = None, grpc = None, conn = None,
       atomicFlag = unsetFlag\<rparr>
      [OpSetClosed, OpSetOpen, OpIsClosed, OpSetOpen, OpSetClosed, OpSetClosed, OpSetOpen]))"
  using lifecycle_flag_monotonic [of
      "\<lparr>conf = \<lparr>Addrs = [], Dialer = None, DialTimeout = 0, KeepAlivePeriod = 0,
               KeepAliveCount = 0, Credentials = [], WithoutDialBlock = False\<rparr>,
       tlsConfig = None, sshConfig = None, dialer = None, grpc = None, conn = None,
       atomicFlag = unsetFlag\<rparr>"
      "[OpSetClosed, OpSetOpen, OpIsClosed, OpSetOpen, OpSetClosed, OpSetClosed, OpSetOpen]"]
  by (simp add: transitions_def setOpen_def setClosed_def isClosed_def
      atomic_CompareAndSwapInt32_def atomic_LoadInt32_def unsetFlag_def openFlag_def
      closedFlag_def)

section \<open>Properties of Close\<close>

lemma Close_as_steps:
  "closeRun env [0, 0, 0] \<lparr>client = cl, world = w, callers = [CloseStart]\<rparr> =
     (case Close env cl w of
        (r, cl1, w1) \<Rightarrow> \<lparr>client = cl1, world = w1, callers = [CloseDone (atomicFlag cl = openFlag) r]\<rparr>)"
  by (auto simp add: closeRun_def closeStep_def Close_def setClosed_def conn_Close_def
      atomic_CompareAndSwapInt32_def split: option.splits)













text \<open>
  C10. Close on a client whose flag is still Unset returns nil, leaves the client (its
  flag and its connection field) and the world untouched, so nothing is released, and a
  later setOpen still wins. The same holds of a concurrent caller: its only step is the
  failed compare-and-set.
\<close>

theorem Close_before_open_is_noop:
  assumes "atomicFlag cl = unsetFlag"
  shows "Close env cl w = (Returns None, cl, w)
         \<and> atomicFlag (fst (snd (Close env cl w))) = unsetFlag
         \<and> released (snd (snd (Close env cl w))) = released w
         \<and> setOpen (fst (snd (Close env cl w))) = (True, cl\<lparr>atomicFlag := openFlag\<rparr>)
         \<and> closeStep env 0 \<lparr>client = cl, world = w, callers = [CloseStart]\<rparr>
             = \<lparr>client = cl, world = w, callers = [CloseDone False (Returns None)]\<rparr>"
  using assms flag_consts_distinct
  by (simp add: Close_def closeStep_def setClosed_def setOpen_def atomic_CompareAndSwapInt32_def)

theorem Close_before_open_is_noop_witness:
  "atomicFlag (newClient plainConfig) = unsetFlag
   \<and> Close quietEnv (newClient plainConfig) emptyWorld
      = (Returns None, newClient plainConfig, emptyWorld)
   \<and> fst (setOpen (fst (snd (Close quietEnv (newClient plainConfig) emptyWorld))))"
proof -
  have h: "atomicFlag (newClient plainConfig) = unsetFlag"
    by (simp add: newClient_def unsetFlag_def)
  from Close_before_open_is_noop [OF h, of quietEnv emptyWorld]
  show ?thesis using h
    by (simp add: setOpen_def atomic_CompareAndSwapInt32_def)
qed

end
